theory Spec2Isabelle
  imports Main "HOL-Library.Sublist" "HOL-Library.Word" "HOL-Library.Code_Target_Nat"
begin

unbundle bit_operations_syntax

section \<open>The Logger class of logger.hpp\<close>

text \<open>
  The header defines one class, \<open>Logger\<close>, whose members are all static. Its three static
  data members (\<open>log_mutex\<close>, \<open>log_config\<close>, \<open>profiling_data\<close>) are the fields of the
  state record below; every member function takes the state and returns the new one
  together with its outcome. What the class does to the world outside (the console
  attribute, \<open>std::cerr\<close>, the log file, the thread it launches) is kept as the list \<open>io\<close>
  of the actions performed, oldest first. Clock readings are inputs of the functions
  that read a clock.
\<close>

subsection \<open>Data\<close>

text \<open>\<open>enum class LogLevel\<close>: a 32-bit value, four of which are named.\<close>

type_synonym LogLevel = "32 word"

definition Info :: LogLevel where "Info = 0"
definition Warning :: LogLevel where "Warning = 1"
definition Error :: LogLevel where "Error = 2"
definition Debug :: LogLevel where "Debug = 3"

record Config =
  console_output :: bool
  file_output :: bool
  remote_logging :: bool
  log_format :: string
  log_filename :: string

text \<open>The default member initialisers of \<open>Config\<close> (lines 25 to 29).\<close>

definition default_Config :: Config where
  "default_Config =
     \<lparr>console_output = True, file_output = False, remote_logging = False,
      log_format = ''[%timestamp%] %level% %message%'' @ [CHR 0x0A] @
                   '' -> File: %file%:%line% (Function: %function%)'' @ [CHR 0x0A],
      log_filename = ''error_log.txt''\<rparr>"

text \<open>\<open>std::source_location\<close>: file name, line and function name of one place in the code.\<close>

record source_location =
  file_name :: string
  line :: "32 word"
  function_name :: string

text \<open>
  How a call can end other than by returning: an exception leaves it, \<open>std::terminate\<close>
  ends the process (an exception reaching the boundary of a \<open>noexcept\<close> function), or
  the call waits for ever on \<open>log_mutex\<close>.
\<close>

datatype exn = out_of_range | callable_exception string

datatype failure = Throws exn | Terminate | Deadlock

text \<open>
  The actions on the outside world: \<open>SetConsoleTextAttribute\<close> on the standard output
  handle, a write (with flush) to \<open>std::cerr\<close>, an append of a text to a named file
  (the file opened in append mode, then the write and the flush), and the launch of the
  delivery lambda by \<open>std::async\<close>, with the values the lambda captured.
\<close>

datatype io_event =
    SetConsoleTextAttribute "16 word"
  | Cerr string
  | Append string string
  | Async string LogLevel

record logger_state =
  log_mutex :: bool
  log_config :: Config
  profiling_data :: "string \<rightharpoonup> int"
  io :: "io_event list"
  is_open :: "string \<Rightarrow> bool"

text \<open>
  \<open>log_mutex\<close> is \<open>True\<close> while a \<open>lock_guard\<close> on it is alive. \<open>profiling_data\<close> maps a
  tag to a reading of \<open>high_resolution_clock\<close>, counted in the clock's ticks
  (nanoseconds). \<open>is_open\<close> belongs to the file system, not to the class: it tells of
  each file name whether a \<open>std::ofstream\<close> constructed on it in append mode is open.
  The state of a program that has not called the class yet, where every file opens:
\<close>

definition initial_state :: logger_state where
  "initial_state =
     \<lparr>log_mutex = False, log_config = default_Config, profiling_data = Map.empty, io = [],
      is_open = (\<lambda>name. True)\<rparr>"

subsection \<open>Library functions the class calls\<close>

text \<open>
  \<open>std::string::find(str)\<close>: the lowest position at which \<open>str\<close> occurs, or \<open>npos\<close>,
  here \<open>None\<close>.
\<close>

primrec string_find :: "string \<Rightarrow> string \<Rightarrow> nat option" where
  "string_find [] str = (if str = [] then Some 0 else None)"
| "string_find (c # cs) str =
     (if prefix str (c # cs) then Some 0 else map_option Suc (string_find cs str))"

text \<open>
  \<open>std::string::replace(pos, n, str)\<close>: throws \<open>std::out_of_range\<close> when \<open>pos\<close> is
  greater than the size, as \<open>npos\<close> always is; otherwise the characters from \<open>pos\<close> up
  to \<open>pos + n\<close> (or the end) give way to \<open>str\<close>.
\<close>

definition string_replace :: "string \<Rightarrow> nat option \<Rightarrow> nat \<Rightarrow> string \<Rightarrow> failure + string" where
  "string_replace s pos n str =
     (case pos of
        None \<Rightarrow> Inl (Throws out_of_range)
      | Some p \<Rightarrow>
          if length s < p then Inl (Throws out_of_range)
          else Inr (take p s @ str @ drop (p + n) s))"

text \<open>\<open>std::to_string\<close> of an unsigned value: its decimal digits.\<close>

fun to_string :: "nat \<Rightarrow> string" where
  "to_string n =
     (if n < 10 then [''0123456789'' ! n]
      else to_string (n div 10) @ [''0123456789'' ! (n mod 10)])"

declare to_string.simps [simp del]

text \<open>\<open>operator<<\<close> of an output stream on a \<open>long long\<close>: a sign and the decimal digits.\<close>

definition put_long_long :: "int \<Rightarrow> string" where
  "put_long_long i = (if i < 0 then ''-'' @ to_string (nat (- i)) else to_string (nat i))"

text \<open>
  \<open>duration_cast<microseconds>(d).count()\<close> on a difference of clock readings in
  nanoseconds: division by 1000, rounding towards zero.
\<close>

definition duration_cast_microseconds :: "int \<Rightarrow> int" where
  "duration_cast_microseconds d = (if 0 \<le> d then d div 1000 else - ((- d) div 1000))"

text \<open>The console colours of the Windows API (wincon.h).\<close>

definition FOREGROUND_BLUE :: "16 word" where "FOREGROUND_BLUE = 1"
definition FOREGROUND_GREEN :: "16 word" where "FOREGROUND_GREEN = 2"
definition FOREGROUND_RED :: "16 word" where "FOREGROUND_RED = 4"

text \<open>
  \<open>std::lock_guard<std::mutex> lock(log_mutex)\<close> around the rest of a function body.
  The mutex is not recursive, and the only thread that can hold it when a member function
  asks for it is the one whose call is in progress (see \<open>log\<close>), so asking for a held
  mutex waits for ever. The guard releases the mutex when the body ends, also by an
  exception.
\<close>

definition lock_guard ::
  "('a logger_state_scheme \<Rightarrow> (failure + 'r) \<times> 'a logger_state_scheme) \<Rightarrow>
   'a logger_state_scheme \<Rightarrow> (failure + 'r) \<times> 'a logger_state_scheme" where
  "lock_guard body st =
     (if log_mutex st then (Inl Deadlock, st)
      else case body (st\<lparr>log_mutex := True\<rparr>) of
             (Inl Deadlock, st') \<Rightarrow> (Inl Deadlock, st')
           | (Inl Terminate, st') \<Rightarrow> (Inl Terminate, st')
           | (r, st') \<Rightarrow> (r, st'\<lparr>log_mutex := False\<rparr>))"

text \<open>A function declared \<open>noexcept\<close>: an exception that would leave it ends the process.\<close>

definition noexcept :: "(failure + 'r) \<times> 's \<Rightarrow> (failure + 'r) \<times> 's" where
  "noexcept res =
     (case res of (Inl (Throws e), st) \<Rightarrow> (Inl Terminate, st) | (r, st) \<Rightarrow> (r, st))"

subsection \<open>The member functions\<close>

definition set_config :: "Config \<Rightarrow> 'a logger_state_scheme \<Rightarrow> 'a logger_state_scheme" where
  "set_config config st = st\<lparr>log_config := config\<rparr>"

text \<open>\<open>get_log_level_prefix\<close> (lines 107 to 126): sets the console colour, returns the prefix.\<close>

definition get_log_level_prefix ::
  "LogLevel \<Rightarrow> 'a logger_state_scheme \<Rightarrow> string \<times> 'a logger_state_scheme" where
  "get_log_level_prefix level st =
     (if level = Info then
        (''[+]'', st\<lparr>io := io st @ [SetConsoleTextAttribute FOREGROUND_GREEN]\<rparr>)
      else if level = Warning then
        (''[!]'', st\<lparr>io := io st @ [SetConsoleTextAttribute (FOREGROUND_RED OR FOREGROUND_GREEN)]\<rparr>)
      else if level = Error then
        (''[-]'', st\<lparr>io := io st @ [SetConsoleTextAttribute FOREGROUND_RED]\<rparr>)
      else if level = Debug then
        (''[*]'', st\<lparr>io := io st @ [SetConsoleTextAttribute FOREGROUND_BLUE]\<rparr>)
      else
        (''[?]'', st\<lparr>io := io st @
           [SetConsoleTextAttribute (FOREGROUND_RED OR FOREGROUND_GREEN OR FOREGROUND_BLUE)]\<rparr>))"

text \<open>
  \<open>format_message\<close> (lines 86 to 105). \<open>now\<close> is the text that \<open>std::put_time\<close> makes of
  the local time with the pattern \<open>%Y-%m-%d %H:%M:%S\<close> (line 96 hands the manipulator
  itself to \<open>replace\<close>; it is read here as the text it prints). Each of the six statements
  searches the string as the statements before it left it, and replaces the number of
  characters the source gives (10, 7, 9, 6, 6, 10) at the position found, without
  looking whether the search found anything.
\<close>

definition format_message ::
  "string \<Rightarrow> LogLevel \<Rightarrow> source_location \<Rightarrow> string \<Rightarrow> 'a logger_state_scheme \<Rightarrow>
   (failure + string) \<times> 'a logger_state_scheme" where
  "format_message message level location now st =
     (let m0 = log_format (log_config st) in
      case string_replace m0 (string_find m0 ''%timestamp%'') 10 now of
        Inl e \<Rightarrow> (Inl e, st)
      | Inr m1 \<Rightarrow>
     (case get_log_level_prefix level st of (pre, st1) \<Rightarrow>
     (case string_replace m1 (string_find m1 ''%level%'') 7 pre of
        Inl e \<Rightarrow> (Inl e, st1)
      | Inr m2 \<Rightarrow>
     (case string_replace m2 (string_find m2 ''%message%'') 9 message of
        Inl e \<Rightarrow> (Inl e, st1)
      | Inr m3 \<Rightarrow>
     (case string_replace m3 (string_find m3 ''%file%'') 6 (file_name location) of
        Inl e \<Rightarrow> (Inl e, st1)
      | Inr m4 \<Rightarrow>
     (case string_replace m4 (string_find m4 ''%line%'') 6 (to_string (unat (line location))) of
        Inl e \<Rightarrow> (Inl e, st1)
      | Inr m5 \<Rightarrow>
     (case string_replace m5 (string_find m5 ''%function%'') 10 (function_name location) of
        Inl e \<Rightarrow> (Inl e, st1)
      | Inr m6 \<Rightarrow> (Inr m6, st1))))))))"

text \<open>
  \<open>write_to_console\<close> (lines 128 to 133) and \<open>write_to_file\<close> (lines 135 to 142). A
  file that is not open after line 137 gets nothing: line 138 skips the write.
\<close>

definition write_to_console ::
  "string \<Rightarrow> LogLevel \<Rightarrow> 'a logger_state_scheme \<Rightarrow> (failure + unit) \<times> 'a logger_state_scheme" where
  "write_to_console log_message level =
     lock_guard (\<lambda>st. (Inr (), st\<lparr>io := io st @
       [Cerr log_message,
        SetConsoleTextAttribute (FOREGROUND_RED OR FOREGROUND_GREEN OR FOREGROUND_BLUE)]\<rparr>))"

definition write_to_file ::
  "string \<Rightarrow> 'a logger_state_scheme \<Rightarrow> (failure + unit) \<times> 'a logger_state_scheme" where
  "write_to_file log_message =
     lock_guard (\<lambda>st.
       if is_open st (log_filename (log_config st))
       then (Inr (), st\<lparr>io := io st @ [Append (log_filename (log_config st)) log_message]\<rparr>)
       else (Inr (), st))"

text \<open>
  \<open>log\<close> (lines 38 to 51). \<open>args\<close> are the texts that \<open>operator<<\<close> makes of the
  arguments, in order. The statement of line 43 calls \<open>std::async\<close> with the policy
  \<open>std::launch::async\<close> and drops the future it returns. The destructor of that
  temporary future, which runs before \<open>log\<close> goes on, waits until the lambda has
  finished (C++ standard, futures.async): the lambda's writes are over when \<open>log\<close>
  returns, and a lambda that waits for \<open>log_mutex\<close> while the caller of \<open>log\<close> holds it
  keeps both waiting for ever. The lambda reads \<open>log_config\<close> when it runs.
\<close>

definition log ::
  "LogLevel \<Rightarrow> source_location \<Rightarrow> string list \<Rightarrow> string \<Rightarrow> 'a logger_state_scheme \<Rightarrow>
   (failure + unit) \<times> 'a logger_state_scheme" where
  "log level location args now st =
     (case format_message (concat args) level location now st of
        (Inl e, st1) \<Rightarrow> (Inl e, st1)
      | (Inr log_message, st1) \<Rightarrow>
          (let st2 = st1\<lparr>io := io st1 @ [Async log_message level]\<rparr> in
           case (if console_output (log_config st2)
                 then write_to_console log_message level st2 else (Inr (), st2)) of
             (Inl e, st3) \<Rightarrow> (Inl e, st3)
           | (Inr u, st3) \<Rightarrow>
               if file_output (log_config st3)
               then write_to_file log_message st3 else (Inr (), st3)))"

text \<open>
  \<open>start_profiling\<close> (lines 54 to 57); \<open>start_time\<close> is the clock reading of line 56.
  The tag, a \<open>std::string_view\<close>, is the key of the map as the string it views.
\<close>

definition start_profiling ::
  "string \<Rightarrow> int \<Rightarrow> 'a logger_state_scheme \<Rightarrow> (failure + unit) \<times> 'a logger_state_scheme" where
  "start_profiling tag start_time st =
     noexcept (lock_guard
       (\<lambda>st. (Inr (), st\<lparr>profiling_data := (profiling_data st)(tag \<mapsto> start_time)\<rparr>)) st)"

text \<open>
  The place \<open>std::source_location::current()\<close> names at line 64, in \<open>end_profiling\<close>,
  and at line 76, in \<open>profile_function\<close>. The line is the source's; the file is the
  header, and the function is the enclosing member function, each in the spelling of
  the compiler.
\<close>

definition end_profiling_location :: source_location where
  "end_profiling_location =
     \<lparr>file_name = ''logger.hpp'', line = 64, function_name = ''end_profiling''\<rparr>"

definition profile_function_location :: source_location where
  "profile_function_location =
     \<lparr>file_name = ''logger.hpp'', line = 76, function_name = ''profile_function''\<rparr>"

text \<open>The five arguments both profiling functions pass to \<open>log\<close> after the place.\<close>

definition execution_time_args :: "string \<Rightarrow> int \<Rightarrow> string list" where
  "execution_time_args tag duration =
     [''Execution time for '', tag, '': '', put_long_long duration, '' microseconds'']"

text \<open>
  \<open>end_profiling\<close> (lines 59 to 67); \<open>end_time\<close> is the clock reading of line 61, \<open>now\<close>
  the time text of the record.
\<close>

definition end_profiling ::
  "string \<Rightarrow> int \<Rightarrow> string \<Rightarrow> 'a logger_state_scheme \<Rightarrow>
   (failure + unit) \<times> 'a logger_state_scheme" where
  "end_profiling tag end_time now st =
     noexcept (lock_guard
       (\<lambda>st. case profiling_data st tag of
               None \<Rightarrow> (Inr (), st)
             | Some start \<Rightarrow>
                 (let duration = duration_cast_microseconds (end_time - start) in
                  case log Debug end_profiling_location
                         (execution_time_args tag duration) now st of
                    (Inl e, st1) \<Rightarrow> (Inl e, st1)
                  | (Inr u, st1) \<Rightarrow>
                      (Inr (), st1\<lparr>profiling_data := (profiling_data st1)(tag := None)\<rparr>))) st)"

text \<open>
  \<open>profile_function\<close> (lines 70 to 78). The callable is a function of its arguments
  and the state, which may end as any call may; \<open>start_time\<close> and \<open>end_time\<close> are the
  clock readings of lines 72 and 74.
\<close>

definition profile_function ::
  "string \<Rightarrow> ('x \<Rightarrow> 'a logger_state_scheme \<Rightarrow> (failure + 'r) \<times> 'a logger_state_scheme) \<Rightarrow> 'x \<Rightarrow>
   int \<Rightarrow> int \<Rightarrow> string \<Rightarrow> 'a logger_state_scheme \<Rightarrow>
   (failure + 'r) \<times> 'a logger_state_scheme" where
  "profile_function tag func args start_time end_time now st =
     noexcept
       (case func args st of
          (Inl e, st1) \<Rightarrow> (Inl e, st1)
        | (Inr result, st1) \<Rightarrow>
            (let duration = duration_cast_microseconds (end_time - start_time) in
             case log Debug profile_function_location
                    (execution_time_args tag duration) now st1 of
               (Inl e, st2) \<Rightarrow> (Inl e, st2)
             | (Inr u, st2) \<Rightarrow> (Inr result, st2)))"

subsection \<open>Observations and examples\<close>

text \<open>
  The sinks, the console and the files by name, and the sinks written to in a list of
  actions, in order.
\<close>

datatype sink = Console | File string

fun sinks_written :: "io_event list \<Rightarrow> sink list" where
  "sinks_written [] = []"
| "sinks_written (Cerr s # es) = Console # sinks_written es"
| "sinks_written (Append f s # es) = File f # sinks_written es"
| "sinks_written (SetConsoleTextAttribute a # es) = sinks_written es"
| "sinks_written (Async s l # es) = sinks_written es"

text \<open>
  A run of statements of the form \<open>s.replace(s.find(token), n, str)\<close>, as lines 96 to 101
  are: the first exception ends the run.
\<close>

fun replace_steps :: "(string \<times> nat \<times> string) list \<Rightarrow> string \<Rightarrow> failure + string" where
  "replace_steps [] s = Inr s"
| "replace_steps ((token, n, str) # steps) s =
     (case string_replace s (string_find s token) n str of
        Inl e \<Rightarrow> Inl e
      | Inr s' \<Rightarrow> replace_steps steps s')"

text \<open>The configuration that the README sets under "Customizing Log Output".\<close>

definition readme_Config :: Config where
  "readme_Config =
     \<lparr>console_output = True, file_output = True, remote_logging = False,
      log_format = ''[%timestamp%] %level% %message% [File: %file% | Line: %line%]'',
      log_filename = ''my_log.txt''\<rparr>"

text \<open>The callable of the README's \<open>profile_function\<close> example: it returns 510.\<close>

definition readme_callable :: "unit \<Rightarrow> logger_state \<Rightarrow> (failure + int) \<times> logger_state" where
  "readme_callable u st = (Inr 510, st)"

text \<open>
  A program state with a counter of its own next to the state of the class, a callable
  that counts its calls there, and one that throws.
\<close>

definition counted_state :: "nat logger_state_scheme" where
  "counted_state =
     \<lparr>log_mutex = False, log_config = default_Config, profiling_data = Map.empty, io = [],
      is_open = (\<lambda>name. True), \<dots> = 0::nat\<rparr>"

definition counting_callable ::
  "int \<Rightarrow> nat logger_state_scheme \<Rightarrow> (failure + int) \<times> nat logger_state_scheme" where
  "counting_callable x st =
     (Inr (x + 500), st\<lparr>logger_state.more := Suc (logger_state.more st)\<rparr>)"

definition throwing_callable ::
  "int \<Rightarrow> nat logger_state_scheme \<Rightarrow> (failure + int) \<times> nat logger_state_scheme" where
  "throwing_callable x st = (Inl (Throws (callable_exception ''boom'')), st)"

text \<open>
  The default configuration with \<open>file_output\<close> set as well: once where the log file
  opens, once where no file does.
\<close>

definition both_sinks_state :: logger_state where
  "both_sinks_state = initial_state\<lparr>log_config := default_Config\<lparr>file_output := True\<rparr>\<rparr>"

definition unopened_state :: logger_state where
  "unopened_state =
     initial_state\<lparr>log_config := default_Config\<lparr>file_output := True\<rparr>,
                   is_open := (\<lambda>name. False)\<rparr>"

section \<open>Searching and replacing around a separator\<close>

text \<open>
  A token that shares no character with a non-empty text \<open>p\<close> cannot begin before \<open>p\<close>
  and end in it or after it.
\<close>

lemma prefix_sep:
  assumes "tok \<noteq> []" "p \<noteq> []" "set tok \<inter> set p = {}"
  shows "prefix tok (a @ p @ b) \<longleftrightarrow> prefix tok a"
proof
  assume "prefix tok a"
  then show "prefix tok (a @ p @ b)" by (rule prefix_prefix)
next
  assume "prefix tok (a @ p @ b)"
  then have "prefix tok a \<or> (\<exists>us. tok = a @ us \<and> prefix us (p @ b))"
    by (simp only: prefix_append)
  then show "prefix tok a"
  proof
    assume "prefix tok a" then show ?thesis .
  next
    assume "\<exists>us. tok = a @ us \<and> prefix us (p @ b)"
    then obtain us where us: "tok = a @ us" "prefix us (p @ b)" by blast
    show ?thesis
    proof (cases us)
      case Nil
      then show ?thesis using us by simp
    next
      case (Cons u us')
      obtain c p' where p: "p = c # p'" using \<open>p \<noteq> []\<close> by (cases p) auto
      have "u = c" using us(2) Cons p by simp
      then have "c \<in> set tok" using us(1) Cons by simp
      then show ?thesis using assms(3) p by auto
    qed
  qed
qed

lemma string_find_skip:
  assumes "tok \<noteq> []" "set tok \<inter> set p = {}"
  shows "string_find (p @ b) tok = map_option (\<lambda>j. length p + j) (string_find b tok)"
  using assms(2)
proof (induction p)
  case Nil
  then show ?case by (simp add: option.map_ident)
next
  case (Cons c p)
  have "\<not> prefix tok (c # p @ b)"
    using assms(1) Cons.prems by (cases tok) auto
  then show ?case using Cons by (simp add: option.map_comp comp_def)
qed

lemma string_find_sep:
  assumes "tok \<noteq> []" "p \<noteq> []" "set tok \<inter> set p = {}"
  shows "string_find (a @ p @ b) tok =
     (case string_find a tok of
        Some i \<Rightarrow> Some i
      | None \<Rightarrow> map_option (\<lambda>j. length a + length p + j) (string_find b tok))"
proof (induction a)
  case Nil
  then show ?case using assms by (simp add: string_find_skip)
next
  case (Cons x a)
  have "prefix tok ((x # a) @ p @ b) \<longleftrightarrow> prefix tok (x # a)"
    using assms by (rule prefix_sep)
  then show ?case using Cons
    by (cases "string_find b tok") (auto simp: option.map_comp comp_def split: option.splits)
qed

lemma string_find_bound: "string_find s tok = Some i \<Longrightarrow> i + length tok \<le> length s"
proof (induction s arbitrary: i)
  case Nil
  then show ?case by (simp split: if_splits)
next
  case (Cons c s)
  then show ?case by (auto split: if_splits dest: prefix_length_le)
qed

text \<open>
  Replacing the first occurrence of such a token, with its own length, leaves the
  separator where it is, and works or fails whatever separator of that length stands
  there.
\<close>

lemma substitute_sep:
  assumes "tok \<noteq> []" "p \<noteq> []" "set tok \<inter> set p = {}"
  shows "(\<exists>a' b'. \<forall>q. q \<noteq> [] \<and> length q = length p \<and> set tok \<inter> set q = {} \<longrightarrow>
            string_replace (a @ q @ b) (string_find (a @ q @ b) tok) (length tok) v
              = Inr (a' @ q @ b'))
       \<or> (\<forall>q. q \<noteq> [] \<and> length q = length p \<and> set tok \<inter> set q = {} \<longrightarrow>
            string_replace (a @ q @ b) (string_find (a @ q @ b) tok) (length tok) v
              = Inl (Throws out_of_range))"
proof (cases "string_find a tok")
  case (Some i)
  then have "i + length tok \<le> length a" by (rule string_find_bound)
  then have "\<forall>q. q \<noteq> [] \<and> length q = length p \<and> set tok \<inter> set q = {} \<longrightarrow>
            string_replace (a @ q @ b) (string_find (a @ q @ b) tok) (length tok) v
            = Inr ((take i a @ v @ drop (i + length tok) a) @ q @ b)"
    using Some assms(1) by (simp add: string_find_sep string_replace_def)
  then show ?thesis by blast
next
  case None
  show ?thesis
  proof (cases "string_find b tok")
    case (Some j)
    then have "\<forall>q. q \<noteq> [] \<and> length q = length p \<and> set tok \<inter> set q = {} \<longrightarrow>
            string_replace (a @ q @ b) (string_find (a @ q @ b) tok) (length tok) v
            = Inr (a @ q @ (take j b @ v @ drop (j + length tok) b))"
      using None assms(1) string_find_bound [OF Some]
      by (simp add: string_find_sep string_replace_def add.assoc)
    then show ?thesis by blast
  next
    case None': None
    show ?thesis using None None' assms(1)
      by (simp add: string_find_sep string_replace_def)
  qed
qed

lemma replace_steps_sep:
  assumes "\<forall>(tok, n, v) \<in> set steps. tok \<noteq> [] \<and> n = length tok \<and> set tok \<inter> set p = {} \<and> set tok \<inter> set q = {}"
    and "p \<noteq> []" "q \<noteq> []" "length q = length p"
  shows "isl (replace_steps steps (a @ p @ b)) = isl (replace_steps steps (a @ q @ b))"
  using assms(1)
proof (induction steps arbitrary: a b)
  case Nil
  then show ?case by simp
next
  case (Cons step steps)
  obtain tok n v where step: "step = (tok, n, v)" by (cases step) auto
  have tok: "tok \<noteq> []" "n = length tok" "set tok \<inter> set p = {}" "set tok \<inter> set q = {}"
    using Cons.prems step by auto
  have rest: "\<forall>(tok, n, v) \<in> set steps. tok \<noteq> [] \<and> n = length tok \<and> set tok \<inter> set p = {} \<and> set tok \<inter> set q = {}"
    using Cons.prems by auto
  from substitute_sep [OF tok(1) assms(2) tok(3), of a b v]
  show ?case
  proof
    assume "\<exists>a' b'. \<forall>q. q \<noteq> [] \<and> length q = length p \<and> set tok \<inter> set q = {} \<longrightarrow>
            string_replace (a @ q @ b) (string_find (a @ q @ b) tok) (length tok) v = Inr (a' @ q @ b')"
    then obtain a' b' where ok: "\<And>q. q \<noteq> [] \<Longrightarrow> length q = length p \<Longrightarrow> set tok \<inter> set q = {} \<Longrightarrow>
            string_replace (a @ q @ b) (string_find (a @ q @ b) tok) (length tok) v = Inr (a' @ q @ b')"
      by blast
    have "replace_steps (step # steps) (a @ p @ b) = replace_steps steps (a' @ p @ b')"
      using ok [of p] assms(2) tok by (simp add: step)
    moreover have "replace_steps (step # steps) (a @ q @ b) = replace_steps steps (a' @ q @ b')"
      using ok [of q] assms(3,4) tok by (simp add: step)
    ultimately show ?thesis using Cons.IH [OF rest] by simp
  next
    assume fail: "\<forall>q. q \<noteq> [] \<and> length q = length p \<and> set tok \<inter> set q = {} \<longrightarrow>
            string_replace (a @ q @ b) (string_find (a @ q @ b) tok) (length tok) v = Inl (Throws out_of_range)"
    have "replace_steps (step # steps) (a @ p @ b) = Inl (Throws out_of_range)"
      using fail assms(2) tok by (simp add: step)
    moreover have "replace_steps (step # steps) (a @ q @ b) = Inl (Throws out_of_range)"
      using fail assms(3,4) tok by (simp add: step)
    ultimately show ?thesis by simp
  qed
qed

text \<open>
  More: where the run works, the separator stands in the result, between the same two
  texts whatever separator of that length and alphabet it is.
\<close>

lemma replace_steps_form:
  assumes "\<forall>(tok, n, v) \<in> set steps. tok \<noteq> [] \<and> n = length tok \<and> set tok \<inter> C = {}"
    and "p \<noteq> []" "set p \<subseteq> C"
  shows "(\<exists>a' b'. \<forall>q. q \<noteq> [] \<and> length q = length p \<and> set q \<subseteq> C \<longrightarrow>
            replace_steps steps (a @ q @ b) = Inr (a' @ q @ b'))
       \<or> (\<forall>q. q \<noteq> [] \<and> length q = length p \<and> set q \<subseteq> C \<longrightarrow>
            replace_steps steps (a @ q @ b) = Inl (Throws out_of_range))"
  using assms(1)
proof (induction steps arbitrary: a b)
  case Nil
  have "\<forall>q. q \<noteq> [] \<and> length q = length p \<and> set q \<subseteq> C \<longrightarrow>
            replace_steps [] (a @ q @ b) = Inr (a @ q @ b)"
    by simp
  then show ?case by blast
next
  case (Cons step steps)
  obtain tok n v where step: "step = (tok, n, v)" by (cases step) auto
  have tok: "tok \<noteq> []" "n = length tok" "set tok \<inter> C = {}"
    using Cons.prems step by auto
  have rest: "\<forall>(tok, n, v) \<in> set steps. tok \<noteq> [] \<and> n = length tok \<and> set tok \<inter> C = {}"
    using Cons.prems by auto
  have disj: "set tok \<inter> set q = {}" if "set q \<subseteq> C" for q
    using that tok(3) by blast
  from substitute_sep [OF tok(1) assms(2) disj [OF assms(3)], of a b v]
  show ?case
  proof
    assume "\<exists>a' b'. \<forall>q. q \<noteq> [] \<and> length q = length p \<and> set tok \<inter> set q = {} \<longrightarrow>
            string_replace (a @ q @ b) (string_find (a @ q @ b) tok) (length tok) v = Inr (a' @ q @ b')"
    then obtain a' b' where ok: "\<And>q. q \<noteq> [] \<Longrightarrow> length q = length p \<Longrightarrow> set tok \<inter> set q = {} \<Longrightarrow>
            string_replace (a @ q @ b) (string_find (a @ q @ b) tok) (length tok) v = Inr (a' @ q @ b')"
      by blast
    have first: "replace_steps (step # steps) (a @ q @ b) = replace_steps steps (a' @ q @ b')"
      if "q \<noteq> []" "length q = length p" "set q \<subseteq> C" for q
      using ok [OF that(1,2) disj [OF that(3)]] tok by (simp add: step)
    from Cons.IH [OF rest, of a' b'] show ?thesis
    proof
      assume "\<exists>a'' b''. \<forall>q. q \<noteq> [] \<and> length q = length p \<and> set q \<subseteq> C \<longrightarrow>
            replace_steps steps (a' @ q @ b') = Inr (a'' @ q @ b'')"
      then obtain a'' b'' where "\<forall>q. q \<noteq> [] \<and> length q = length p \<and> set q \<subseteq> C \<longrightarrow>
            replace_steps steps (a' @ q @ b') = Inr (a'' @ q @ b'')" by blast
      then have "\<forall>q. q \<noteq> [] \<and> length q = length p \<and> set q \<subseteq> C \<longrightarrow>
            replace_steps (step # steps) (a @ q @ b) = Inr (a'' @ q @ b'')"
        using first by simp
      then show ?thesis by blast
    next
      assume "\<forall>q. q \<noteq> [] \<and> length q = length p \<and> set q \<subseteq> C \<longrightarrow>
            replace_steps steps (a' @ q @ b') = Inl (Throws out_of_range)"
      then have "\<forall>q. q \<noteq> [] \<and> length q = length p \<and> set q \<subseteq> C \<longrightarrow>
            replace_steps (step # steps) (a @ q @ b) = Inl (Throws out_of_range)"
        using first by simp
      then show ?thesis by blast
    qed
  next
    assume fail: "\<forall>q. q \<noteq> [] \<and> length q = length p \<and> set tok \<inter> set q = {} \<longrightarrow>
            string_replace (a @ q @ b) (string_find (a @ q @ b) tok) (length tok) v = Inl (Throws out_of_range)"
    have "replace_steps (step # steps) (a @ q @ b) = Inl (Throws out_of_range)"
      if "q \<noteq> []" "length q = length p" "set q \<subseteq> C" for q
      using fail that disj [OF that(3)] tok by (simp add: step)
    then show ?thesis by blast
  qed
qed

lemma string_replace_error: "string_replace s pos n str = Inl e \<Longrightarrow> e = Throws out_of_range"
  by (auto simp: string_replace_def split: option.splits if_splits)

lemma replace_steps_error: "replace_steps steps s = Inl e \<Longrightarrow> e = Throws out_of_range"
proof (induction steps arbitrary: s)
  case Nil
  then show ?case by simp
next
  case (Cons step steps)
  obtain tok n v where step: "step = (tok, n, v)" by (cases step) auto
  show ?case using Cons
    by (auto simp: step split: sum.splits dest: string_replace_error)
qed

section \<open>The formatter\<close>

lemma get_log_level_prefix_state:
  "\<exists>a. snd (get_log_level_prefix level st) = st\<lparr>io := io st @ [SetConsoleTextAttribute a]\<rparr>"
  by (auto simp add: get_log_level_prefix_def)

lemma get_log_level_prefix_fst:
  "fst (get_log_level_prefix level st') = fst (get_log_level_prefix level st)"
  by (simp add: get_log_level_prefix_def)

lemma prefix_chars: "set (fst (get_log_level_prefix l st)) \<subseteq> set ''[+!-*?]''"
  by (simp add: get_log_level_prefix_def)

lemma prefix_length: "length (fst (get_log_level_prefix l st)) = 3"
  by (simp add: get_log_level_prefix_def)

lemma token_chars:
  "set ''%message%'' \<inter> set ''[+!-*?]'' = {}"
  "set ''%file%'' \<inter> set ''[+!-*?]'' = {}"
  "set ''%line%'' \<inter> set ''[+!-*?]'' = {}"
  "set ''%function%'' \<inter> set ''[+!-*?]'' = {}"
  by simp_all

lemma rest_sep:
  assumes "set p \<subseteq> set ''[+!-*?]''" "set q \<subseteq> set ''[+!-*?]''" "length p = 3" "length q = 3"
  shows "isl (replace_steps [(''%message%'', 9, m), (''%file%'', 6, f),
     (''%line%'', 6, n), (''%function%'', 10, g)] (a @ p @ b)) =
    isl (replace_steps [(''%message%'', 9, m), (''%file%'', 6, f),
     (''%line%'', 6, n), (''%function%'', 10, g)] (a @ q @ b))"
proof (rule replace_steps_sep)
  have d: "set tok \<inter> set p = {}" "set tok \<inter> set q = {}" if "set tok \<inter> set ''[+!-*?]'' = {}" for tok
    using that assms(1,2) by blast+
  show "\<forall>(tok, n, v) \<in> set [(''%message%'', 9, m), (''%file%'', 6, f),
     (''%line%'', 6, n), (''%function%'', 10, g)]. tok \<noteq> [] \<and> n = length tok \<and> set tok \<inter> set p = {} \<and> set tok \<inter> set q = {}"
    using d [OF token_chars(1)] d [OF token_chars(2)] d [OF token_chars(3)] d [OF token_chars(4)]
    by simp
  show "p \<noteq> []" using assms(3) by auto
  show "q \<noteq> []" using assms(4) by auto
  show "length q = length p" using assms by simp
qed

text \<open>The text \<open>format_message\<close> returns is the result of its six statements in a row.\<close>

lemma format_message_steps:
  "fst (format_message message level location now st) =
     replace_steps
       [(''%timestamp%'', 10, now),
        (''%level%'', 7, fst (get_log_level_prefix level st)),
        (''%message%'', 9, message),
        (''%file%'', 6, file_name location),
        (''%line%'', 6, to_string (unat (line location))),
        (''%function%'', 10, function_name location)]
       (log_format (log_config st))"
  by (simp add: format_message_def Let_def split: sum.splits prod.splits)

lemma format_message_snd:
  "snd (format_message message level location now st) =
     (if isl (string_replace (log_format (log_config st))
                (string_find (log_format (log_config st)) ''%timestamp%'') 10 now)
      then st else snd (get_log_level_prefix level st))"
  by (simp add: format_message_def Let_def split: sum.splits prod.splits)

lemma format_message_error:
  "fst (format_message m l loc now st) = Inl e \<Longrightarrow> e = Throws out_of_range"
  unfolding format_message_steps by (rule replace_steps_error)

lemma format_message_config:
  "log_config st' = log_config st \<Longrightarrow>
   fst (format_message m l loc now st') = fst (format_message m l loc now st)"
  by (simp add: format_message_steps get_log_level_prefix_fst [of l st' st])

lemma format_message_state:
  "\<exists>c. snd (format_message m l loc now st) = st\<lparr>io := io st @ c\<rparr> \<and>
       (c = [] \<or> (\<exists>a. c = [SetConsoleTextAttribute a]))"
proof (cases "isl (string_replace (log_format (log_config st))
                (string_find (log_format (log_config st)) ''%timestamp%'') 10 now)")
  case True
  then have "snd (format_message m l loc now st) = st\<lparr>io := io st @ []\<rparr>"
    by (simp add: format_message_snd)
  then show ?thesis by blast
next
  case False
  then have "snd (format_message m l loc now st) = snd (get_log_level_prefix l st)"
    by (simp add: format_message_snd)
  then show ?thesis using get_log_level_prefix_state [of l st] by auto
qed

lemma format_message_Inr_state:
  "fst (format_message m l loc now st) = Inr s \<Longrightarrow>
   snd (format_message m l loc now st) = snd (get_log_level_prefix l st)"
  by (auto simp add: format_message_def Let_def split: sum.splits prod.splits)

text \<open>
  Whether formatting throws does not depend on the level: every prefix is three
  characters long and shares no character with a placeholder, and the four statements
  after the level's replace as many characters as their placeholder has.
\<close>

lemma format_message_level_independent:
  "isl (fst (format_message m l1 loc now st)) = isl (fst (format_message m l2 loc now st))"
proof -
  define fmt where "fmt = log_format (log_config st)"
  let ?rest = "[(''%message%'', 9::nat, m), (''%file%'', 6, file_name loc),
     (''%line%'', 6, to_string (unat (line loc))), (''%function%'', 10, function_name loc)]"
  define p where "p = fst (get_log_level_prefix l1 st)"
  define q where "q = fst (get_log_level_prefix l2 st)"
  have unfold1: "fst (format_message m l1 loc now st) =
      (case string_replace fmt (string_find fmt ''%timestamp%'') 10 now of
         Inl e \<Rightarrow> Inl e
       | Inr m1 \<Rightarrow>
           (case string_replace m1 (string_find m1 ''%level%'') 7 p of
              Inl e \<Rightarrow> Inl e
            | Inr m2 \<Rightarrow> replace_steps ?rest m2))"
    by (cases "string_replace fmt (string_find fmt ''%timestamp%'') 10 now")
      (simp_all add: format_message_steps fmt_def p_def)
  have unfold2: "fst (format_message m l2 loc now st) =
      (case string_replace fmt (string_find fmt ''%timestamp%'') 10 now of
         Inl e \<Rightarrow> Inl e
       | Inr m1 \<Rightarrow>
           (case string_replace m1 (string_find m1 ''%level%'') 7 q of
              Inl e \<Rightarrow> Inl e
            | Inr m2 \<Rightarrow> replace_steps ?rest m2))"
    by (cases "string_replace fmt (string_find fmt ''%timestamp%'') 10 now")
      (simp_all add: format_message_steps fmt_def q_def)
  have sep: "isl (replace_steps ?rest (a @ p @ b)) = isl (replace_steps ?rest (a @ q @ b))" for a b
    unfolding p_def q_def by (rule rest_sep) (rule prefix_chars prefix_length)+
  show ?thesis
  proof (cases "string_replace fmt (string_find fmt ''%timestamp%'') 10 now")
    case (Inl e)
    then show ?thesis by (simp only: unfold1 unfold2 sum.case)
  next
    case (Inr m1)
    show ?thesis
    proof (cases "string_find m1 ''%level%''")
      case None
      then have "string_replace m1 (string_find m1 ''%level%'') 7 v = Inl (Throws out_of_range)" for v
        by (simp add: string_replace_def)
      then show ?thesis using Inr by (simp only: unfold1 unfold2 sum.case)
    next
      case (Some i)
      then have "i + 7 \<le> length m1" using string_find_bound [OF Some] by simp
      then have "string_replace m1 (string_find m1 ''%level%'') 7 v = Inr (take i m1 @ v @ drop (i + 7) m1)" for v
        using Some by (simp add: string_replace_def)
      then show ?thesis using Inr sep [of "take i m1" "drop (i + 7) m1"]
        by (simp only: unfold1 unfold2 sum.case)
    qed
  qed
qed

text \<open>
  And the texts of two levels are the same text around the two prefixes.
\<close>

lemma format_message_prefix_form:
  assumes "fst (format_message m l1 loc now st) = Inr s"
  shows "\<exists>a b. s = a @ fst (get_log_level_prefix l1 st) @ b \<and>
           fst (format_message m l2 loc now st) = Inr (a @ fst (get_log_level_prefix l2 st) @ b)"
proof -
  define fmt where "fmt = log_format (log_config st)"
  let ?rest = "[(''%message%'', 9::nat, m), (''%file%'', 6, file_name loc),
     (''%line%'', 6, to_string (unat (line loc))), (''%function%'', 10, function_name loc)]"
  define p where "p = fst (get_log_level_prefix l1 st)"
  define q where "q = fst (get_log_level_prefix l2 st)"
  have good: "p \<noteq> []" "set p \<subseteq> set ''[+!-*?]''" "q \<noteq> []" "length q = length p"
    "set q \<subseteq> set ''[+!-*?]''"
    using prefix_length [of l1 st] prefix_length [of l2 st] prefix_chars [of l1 st]
      prefix_chars [of l2 st]
    unfolding p_def q_def by auto
  have unfold: "fst (format_message m l loc now st) =
      (case string_replace fmt (string_find fmt ''%timestamp%'') 10 now of
         Inl e \<Rightarrow> Inl e
       | Inr m1 \<Rightarrow>
           (case string_replace m1 (string_find m1 ''%level%'') 7 (fst (get_log_level_prefix l st)) of
              Inl e \<Rightarrow> Inl e
            | Inr m2 \<Rightarrow> replace_steps ?rest m2))" for l
    by (cases "string_replace fmt (string_find fmt ''%timestamp%'') 10 now")
      (simp_all add: format_message_steps fmt_def)
  have steps: "\<forall>(tok, n, v) \<in> set ?rest. tok \<noteq> [] \<and> n = length tok \<and> set tok \<inter> set ''[+!-*?]'' = {}"
    using token_chars by simp
  show ?thesis
  proof (cases "string_replace fmt (string_find fmt ''%timestamp%'') 10 now")
    case (Inl e)
    then show ?thesis using assms by (simp add: unfold)
  next
    case (Inr m1)
    show ?thesis
    proof (cases "string_find m1 ''%level%''")
      case None
      then have "string_replace m1 (string_find m1 ''%level%'') 7 v = Inl (Throws out_of_range)" for v
        by (simp add: string_replace_def)
      then show ?thesis using Inr assms by (simp add: unfold)
    next
      case (Some i)
      then have "i + 7 \<le> length m1" using string_find_bound [OF Some] by simp
      then have lev: "string_replace m1 (string_find m1 ''%level%'') 7 v = Inr (take i m1 @ v @ drop (i + 7) m1)" for v
        using Some by (simp add: string_replace_def)
      have f: "fst (format_message m l loc now st) =
          replace_steps ?rest (take i m1 @ fst (get_log_level_prefix l st) @ drop (i + 7) m1)" for l
        using Inr lev by (simp only: unfold sum.case)
      from replace_steps_form [OF steps good(1,2), of "take i m1" "drop (i + 7) m1"]
      show ?thesis
      proof
        assume "\<exists>a' b'. \<forall>q. q \<noteq> [] \<and> length q = length p \<and> set q \<subseteq> set ''[+!-*?]'' \<longrightarrow>
            replace_steps ?rest (take i m1 @ q @ drop (i + 7) m1) = Inr (a' @ q @ b')"
        then obtain a' b' where ab: "\<And>q. q \<noteq> [] \<Longrightarrow> length q = length p \<Longrightarrow> set q \<subseteq> set ''[+!-*?]'' \<Longrightarrow>
            replace_steps ?rest (take i m1 @ q @ drop (i + 7) m1) = Inr (a' @ q @ b')"
          by blast
        have "fst (format_message m l1 loc now st) = Inr (a' @ p @ b')"
          using ab [of p] good by (simp only: f p_def [symmetric]) simp
        moreover have "fst (format_message m l2 loc now st) = Inr (a' @ q @ b')"
          using ab [of q] good by (simp only: f q_def [symmetric]) simp
        ultimately show ?thesis using assms unfolding p_def q_def by auto
      next
        assume "\<forall>q. q \<noteq> [] \<and> length q = length p \<and> set q \<subseteq> set ''[+!-*?]'' \<longrightarrow>
            replace_steps ?rest (take i m1 @ q @ drop (i + 7) m1) = Inl (Throws out_of_range)"
        then have "replace_steps ?rest (take i m1 @ p @ drop (i + 7) m1) = Inl (Throws out_of_range)"
          using good by blast
        then have "fst (format_message m l1 loc now st) = Inl (Throws out_of_range)"
          by (simp only: f p_def [symmetric])
        then show ?thesis using assms by simp
      qed
    qed
  qed
qed

text \<open>A template without \<open>%timestamp%\<close> makes the first statement throw.\<close>

lemma format_message_absent_timestamp:
  "string_find (log_format (log_config st)) ''%timestamp%'' = None \<Longrightarrow>
   fst (format_message m l loc now st) = Inl (Throws out_of_range)"
  by (simp add: format_message_steps string_replace_def)

section \<open>What a call of log does\<close>

lemma sinks_written_append [simp]: "sinks_written (xs @ ys) = sinks_written xs @ sinks_written ys"
  by (induction xs rule: sinks_written.induct) simp_all

lemma log_Inl:
  "fst (format_message (concat args) l loc now st) = Inl e \<Longrightarrow>
   log l loc args now st = (Inl e, snd (format_message (concat args) l loc now st))"
  by (cases "format_message (concat args) l loc now st") (simp add: log_def)

lemma log_Inr:
  assumes "fst (format_message (concat args) l loc now st) = Inr s"
  shows "log l loc args now st =
    (let st1 = snd (get_log_level_prefix l st) in
     if log_mutex st then
       (if console_output (log_config st) \<or> file_output (log_config st)
        then (Inl Deadlock, st1\<lparr>io := io st1 @ [Async s l]\<rparr>)
        else (Inr (), st1\<lparr>io := io st1 @ [Async s l]\<rparr>))
     else
       (Inr (), st1\<lparr>io := io st1 @ [Async s l] @
          (if console_output (log_config st)
           then [Cerr s, SetConsoleTextAttribute (FOREGROUND_RED OR FOREGROUND_GREEN OR FOREGROUND_BLUE)]
           else []) @
          (if file_output (log_config st) \<and> is_open st (log_filename (log_config st))
           then [Append (log_filename (log_config st)) s] else [])\<rparr>))"
proof -
  obtain a where a: "snd (get_log_level_prefix l st) = st\<lparr>io := io st @ [SetConsoleTextAttribute a]\<rparr>"
    using get_log_level_prefix_state by blast
  have fm: "format_message (concat args) l loc now st = (Inr s, st\<lparr>io := io st @ [SetConsoleTextAttribute a]\<rparr>)"
    using assms format_message_Inr_state [OF assms] a by (simp add: prod_eq_iff)
  show ?thesis
    by (simp add: log_def fm a write_to_console_def write_to_file_def lock_guard_def Let_def)
qed

lemma log_outcome:
  "fst (log l loc args now st) =
     (case fst (format_message (concat args) l loc now st) of
        Inl e \<Rightarrow> Inl (Throws out_of_range)
      | Inr s \<Rightarrow>
          if log_mutex st \<and> (console_output (log_config st) \<or> file_output (log_config st))
          then Inl Deadlock else Inr ())"
proof (cases "fst (format_message (concat args) l loc now st)")
  case (Inl e)
  then show ?thesis using format_message_error [OF Inl] by (simp add: log_Inl)
next
  case (Inr s)
  then show ?thesis by (simp add: log_Inr Let_def)
qed

lemma log_sinks:
  "sinks_written (io (snd (log l loc args now st))) =
     sinks_written (io st) @
     (case fst (format_message (concat args) l loc now st) of
        Inl e \<Rightarrow> []
      | Inr s \<Rightarrow>
          if log_mutex st then []
          else (if console_output (log_config st) then [Console] else []) @
               (if file_output (log_config st) \<and> is_open st (log_filename (log_config st))
                then [File (log_filename (log_config st))] else []))"
proof (cases "fst (format_message (concat args) l loc now st)")
  case (Inl e)
  obtain c where "snd (format_message (concat args) l loc now st) = st\<lparr>io := io st @ c\<rparr>"
    "c = [] \<or> (\<exists>a. c = [SetConsoleTextAttribute a])"
    using format_message_state by blast
  then show ?thesis using Inl by (auto simp add: log_Inl)
next
  case (Inr s)
  obtain a where "snd (get_log_level_prefix l st) = st\<lparr>io := io st @ [SetConsoleTextAttribute a]\<rparr>"
    using get_log_level_prefix_state by blast
  then show ?thesis using Inr by (simp add: log_Inr Let_def)
qed

lemma log_io:
  "\<exists>c. snd (log l loc args now st) = st\<lparr>io := io st @ c\<rparr> \<and>
       (\<forall>s' l'. Async s' l' \<in> set c \<longrightarrow>
          l' = l \<and> fst (format_message (concat args) l loc now st) = Inr s')"
proof (cases "fst (format_message (concat args) l loc now st)")
  case (Inl e)
  obtain c where "snd (format_message (concat args) l loc now st) = st\<lparr>io := io st @ c\<rparr>"
    "c = [] \<or> (\<exists>a. c = [SetConsoleTextAttribute a])"
    using format_message_state by blast
  then show ?thesis using Inl by (auto simp add: log_Inl)
next
  case (Inr s)
  obtain a where a: "snd (get_log_level_prefix l st) = st\<lparr>io := io st @ [SetConsoleTextAttribute a]\<rparr>"
    using get_log_level_prefix_state by blast
  show ?thesis
  proof (cases "log_mutex st")
    case True
    then have "snd (log l loc args now st) = st\<lparr>io := io st @ [SetConsoleTextAttribute a, Async s l]\<rparr>"
      using Inr a by (simp add: log_Inr Let_def)
    then show ?thesis using Inr by (intro exI [of _ "[SetConsoleTextAttribute a, Async s l]"]) simp
  next
    case False
    let ?c = "[SetConsoleTextAttribute a, Async s l] @
          (if console_output (log_config st)
           then [Cerr s, SetConsoleTextAttribute (FOREGROUND_RED OR FOREGROUND_GREEN OR FOREGROUND_BLUE)]
           else []) @
          (if file_output (log_config st) \<and> is_open st (log_filename (log_config st))
           then [Append (log_filename (log_config st)) s] else [])"
    have "snd (log l loc args now st) = st\<lparr>io := io st @ ?c\<rparr>"
      using Inr a False by (simp add: log_Inr Let_def)
    then show ?thesis using Inr by (intro exI [of _ ?c]) simp
  qed
qed

section \<open>The profiling functions\<close>

lemma noexcept_snd: "snd (noexcept r) = snd r"
  by (cases r) (auto simp: noexcept_def split: sum.splits failure.splits)

lemma lock_guard_io:
  "io (snd (lock_guard body st)) =
     (if log_mutex st then io st else io (snd (body (st\<lparr>log_mutex := True\<rparr>))))"
  by (auto simp: lock_guard_def split: prod.splits sum.splits failure.splits)

lemma end_profiling_io:
  "\<exists>c. io (snd (end_profiling tag end_time now st)) = io st @ c \<and>
       (\<forall>s l. Async s l \<in> set c \<longrightarrow>
          l = Debug \<and>
          (\<exists>start. profiling_data st tag = Some start \<and>
             fst (format_message
                    (concat (execution_time_args tag (duration_cast_microseconds (end_time - start))))
                    Debug end_profiling_location now st) = Inr s))"
proof (cases "log_mutex st")
  case True
  then have "io (snd (end_profiling tag end_time now st)) = io st @ []"
    by (simp add: end_profiling_def noexcept_snd lock_guard_io)
  then show ?thesis by (intro exI [of _ "[]"]) simp
next
  case False
  show ?thesis
  proof (cases "profiling_data st tag")
    case None
    then have "io (snd (end_profiling tag end_time now st)) = io st @ []"
      using False by (simp add: end_profiling_def noexcept_snd lock_guard_io)
    then show ?thesis by (intro exI [of _ "[]"]) simp
  next
    case (Some start)
    let ?st = "st\<lparr>log_mutex := True\<rparr>"
    let ?args = "execution_time_args tag (duration_cast_microseconds (end_time - start))"
    obtain c where c: "snd (log Debug end_profiling_location ?args now ?st) = ?st\<lparr>io := io ?st @ c\<rparr>"
      "\<forall>s' l'. Async s' l' \<in> set c \<longrightarrow>
          l' = Debug \<and> fst (format_message (concat ?args) Debug end_profiling_location now ?st) = Inr s'"
      using log_io [of Debug end_profiling_location ?args now ?st] by blast
    have cfg: "fst (format_message m Debug end_profiling_location now ?st) =
               fst (format_message m Debug end_profiling_location now st)" for m
      by (rule format_message_config) simp
    have "io (snd (end_profiling tag end_time now st)) = io st @ c"
      using False Some c(1)
      by (cases "log Debug end_profiling_location ?args now ?st")
         (auto simp add: end_profiling_def noexcept_snd lock_guard_io Let_def split: sum.splits)
    then show ?thesis using c(2) Some by (intro exI [of _ c]) (simp add: cfg)
  qed
qed

lemma profile_function_io:
  assumes "func args st = (r, st1)"
  shows "\<exists>c. io (snd (profile_function tag func args start_time end_time now st)) = io st1 @ c \<and>
       (\<forall>s l. Async s l \<in> set c \<longrightarrow>
          l = Debug \<and>
          fst (format_message
                 (concat (execution_time_args tag (duration_cast_microseconds (end_time - start_time))))
                 Debug profile_function_location now st1) = Inr s)"
proof (cases r)
  case (Inl e)
  then have "io (snd (profile_function tag func args start_time end_time now st)) = io st1 @ []"
    using assms by (simp add: profile_function_def noexcept_snd)
  then show ?thesis by (intro exI [of _ "[]"]) simp
next
  case (Inr result)
  let ?args = "execution_time_args tag (duration_cast_microseconds (end_time - start_time))"
  obtain c where c: "snd (log Debug profile_function_location ?args now st1) = st1\<lparr>io := io st1 @ c\<rparr>"
      "\<forall>s' l'. Async s' l' \<in> set c \<longrightarrow>
          l' = Debug \<and> fst (format_message (concat ?args) Debug profile_function_location now st1) = Inr s'"
    using log_io [of Debug profile_function_location ?args now st1] by blast
  have "io (snd (profile_function tag func args start_time end_time now st)) = io st1 @ c"
    using assms Inr c(1)
    by (cases "log Debug profile_function_location ?args now st1")
       (auto simp add: profile_function_def noexcept_snd Let_def split: sum.splits)
  then show ?thesis using c(2) by (intro exI [of _ c]) simp
qed

text \<open>
  \<open>end_profiling\<close> on a registered tag, called with the mutex free: it returns only
  when neither sink is enabled and formatting does not throw, and only then is the tag
  erased.
\<close>

lemma end_profiling_registered:
  assumes "\<not> log_mutex st" "profiling_data st tag = Some start"
  shows "fst (end_profiling tag end_time now st) =
     (case fst (format_message
                  (concat (execution_time_args tag (duration_cast_microseconds (end_time - start))))
                  Debug end_profiling_location now st) of
        Inl e \<Rightarrow> Inl Terminate
      | Inr s \<Rightarrow>
          if console_output (log_config st) \<or> file_output (log_config st)
          then Inl Deadlock else Inr ())"
    and "fst (end_profiling tag end_time now st) \<noteq> Inr () \<Longrightarrow>
         profiling_data (snd (end_profiling tag end_time now st)) tag = Some start"
    and "fst (end_profiling tag end_time now st) = Inr () \<Longrightarrow>
         profiling_data (snd (end_profiling tag end_time now st)) tag = None"
proof -
  let ?st = "st\<lparr>log_mutex := True\<rparr>"
  let ?args = "execution_time_args tag (duration_cast_microseconds (end_time - start))"
  have cfg: "fst (format_message m Debug end_profiling_location now ?st) =
             fst (format_message m Debug end_profiling_location now st)" for m
    by (rule format_message_config) simp
  obtain c where c: "snd (log Debug end_profiling_location ?args now ?st) = ?st\<lparr>io := io ?st @ c\<rparr>"
    using log_io [of Debug end_profiling_location ?args now ?st] by blast
  have out: "fst (log Debug end_profiling_location ?args now ?st) =
     (case fst (format_message (concat ?args) Debug end_profiling_location now st) of
        Inl e \<Rightarrow> Inl (Throws out_of_range)
      | Inr s \<Rightarrow>
          if console_output (log_config st) \<or> file_output (log_config st)
          then Inl Deadlock else Inr ())"
    by (simp add: log_outcome cfg)
  obtain r st' where l: "log Debug end_profiling_location ?args now ?st = (r, st')"
    by (cases "log Debug end_profiling_location ?args now ?st") auto
  have r: "r = (case fst (format_message (concat ?args) Debug end_profiling_location now st) of
        Inl e \<Rightarrow> Inl (Throws out_of_range)
      | Inr s \<Rightarrow>
          if console_output (log_config st) \<or> file_output (log_config st)
          then Inl Deadlock else Inr ())"
    using out l by simp
  have st': "st' = ?st\<lparr>io := io ?st @ c\<rparr>" using c l by simp
  have ep: "end_profiling tag end_time now st =
      noexcept (case (r, st') of
             (Inl Deadlock, st') \<Rightarrow> (Inl Deadlock, st')
           | (Inl Terminate, st') \<Rightarrow> (Inl Terminate, st')
           | (Inl (Throws e), st') \<Rightarrow> (Inl (Throws e), st'\<lparr>log_mutex := False\<rparr>)
           | (Inr u, st') \<Rightarrow> (Inr (), st'\<lparr>profiling_data := (profiling_data st')(tag := None), log_mutex := False\<rparr>))"
    using assms l
    by (auto simp add: end_profiling_def lock_guard_def Let_def split: sum.splits failure.splits)
  show "fst (end_profiling tag end_time now st) =
     (case fst (format_message (concat ?args) Debug end_profiling_location now st) of
        Inl e \<Rightarrow> Inl Terminate
      | Inr s \<Rightarrow>
          if console_output (log_config st) \<or> file_output (log_config st)
          then Inl Deadlock else Inr ())"
    unfolding ep r
    by (cases "fst (format_message (concat ?args) Debug end_profiling_location now st)")
       (simp_all add: noexcept_def)
  show "profiling_data (snd (end_profiling tag end_time now st)) tag = Some start"
    if "fst (end_profiling tag end_time now st) \<noteq> Inr ()"
    using that assms(2) unfolding ep r st'
    by (cases "fst (format_message (concat ?args) Debug end_profiling_location now st)")
       (simp_all add: noexcept_def split: if_splits)
  show "profiling_data (snd (end_profiling tag end_time now st)) tag = None"
    if "fst (end_profiling tag end_time now st) = Inr ()"
    using that assms(2) unfolding ep r st'
    by (cases "fst (format_message (concat ?args) Debug end_profiling_location now st)")
       (simp_all add: noexcept_def split: if_splits)
qed

text \<open>
  Between two calls of the class the mutex is free: a call that starts with the mutex
  free and comes back, by a return or an exception, has released it.
\<close>

lemma log_keeps_mutex: "log_mutex (snd (log l loc args now st)) = log_mutex st"
proof -
  obtain c where "snd (log l loc args now st) = st\<lparr>io := io st @ c\<rparr>"
    using log_io by blast
  then show ?thesis by simp
qed

lemma start_profiling_releases_mutex:
  "\<not> log_mutex st \<Longrightarrow> \<not> log_mutex (snd (start_profiling tag t st))"
  by (simp add: start_profiling_def lock_guard_def noexcept_def)

lemma end_profiling_releases_mutex:
  assumes "\<not> log_mutex st" "fst (end_profiling tag end_time now st) = Inr ()"
  shows "\<not> log_mutex (snd (end_profiling tag end_time now st))"
proof (cases "profiling_data st tag")
  case None
  then show ?thesis using assms(1) by (simp add: end_profiling_def lock_guard_def noexcept_def)
next
  case (Some start)
  let ?st = "st\<lparr>log_mutex := True\<rparr>"
  let ?args = "execution_time_args tag (duration_cast_microseconds (end_time - start))"
  obtain r st' where l: "log Debug end_profiling_location ?args now ?st = (r, st')"
    by (cases "log Debug end_profiling_location ?args now ?st") auto
  show ?thesis using assms Some l
    by (auto simp add: end_profiling_def lock_guard_def noexcept_def Let_def
             split: sum.splits failure.splits)
qed

section \<open>The properties of the specification\<close>

subsection \<open>Formatting\<close>

text \<open>
  C1. Under a template that lacks a placeholder, formatting a record does not go through:
  the statement for the absent placeholder calls \<open>replace\<close> at \<open>npos\<close>, which throws
  \<open>std::out_of_range\<close>, and \<open>log\<close> passes the exception on to its caller. So it is under
  the README's own template, which has no \<open>%function%\<close>, and under a template without
  \<open>%line%\<close>.
\<close>

theorem log_throws_where_placeholder_absent:
  "fst (log Info \<lparr>file_name = ''main.cpp'', line = 7, function_name = ''main''\<rparr>
         [''Start Success!''] ''2025-01-02 03:04:05'' (set_config readme_Config initial_state))
     = Inl (Throws out_of_range) \<and>
   fst (format_message ''hello'' Info \<lparr>file_name = ''a.cpp'', line = 42, function_name = ''main''\<rparr>
         ''2025-01-02 03:04:05''
         (set_config (default_Config\<lparr>log_format := ''[%timestamp%] %level% %message% (%file%, %function%)''\<rparr>)
            initial_state))
     = Inl (Throws out_of_range)"
  by code_simp

text \<open>
  C3. Under the default template, which holds each of the six placeholders once, and
  with the level Info, the message hello, the file a.cpp, the line 42 and the function
  main, the formatter returns a text in which the closing percent sign of
  \<open>%timestamp%\<close> still follows the time: line 96 replaces 10 characters of a
  placeholder that has 11.
\<close>

theorem format_message_keeps_a_percent_sign:
  "fst (format_message ''hello'' Info \<lparr>file_name = ''a.cpp'', line = 42, function_name = ''main''\<rparr>
         ''2025-01-02 03:04:05'' initial_state) =
     Inr (''[2025-01-02 03:04:05%] [+] hello'' @ [CHR 0x0A] @
          '' -> File: a.cpp:42 (Function: main)'' @ [CHR 0x0A])"
  by code_simp

text \<open>
  C8. The prefix that the formatter takes from \<open>get_log_level_prefix\<close> is \<open>[+]\<close> for
  Info, \<open>[!]\<close> for Warning, \<open>[-]\<close> for Error, \<open>[*]\<close> for Debug, and \<open>[?]\<close> for every
  other value of the level.
\<close>

theorem get_log_level_prefix_exact:
  "fst (get_log_level_prefix Info st) = ''[+]'' \<and>
   fst (get_log_level_prefix Warning st) = ''[!]'' \<and>
   fst (get_log_level_prefix Error st) = ''[-]'' \<and>
   fst (get_log_level_prefix Debug st) = ''[*]'' \<and>
   (\<forall>level. level \<notin> {Info, Warning, Error, Debug} \<longrightarrow>
      fst (get_log_level_prefix level st) = ''[?]'')"
  by (simp add: get_log_level_prefix_def Info_def Warning_def Error_def Debug_def)

text \<open>The level 7 is none of the four named ones.\<close>

theorem get_log_level_prefix_exact_witness:
  "(7 :: LogLevel) \<notin> {Info, Warning, Error, Debug} \<and>
   fst (get_log_level_prefix 7 initial_state) = ''[?]'' \<and>
   fst (get_log_level_prefix Debug initial_state) = ''[*]''"
  using get_log_level_prefix_exact [of initial_state]
  by (simp add: Info_def Warning_def Error_def Debug_def)

subsection \<open>Dispatch\<close>

text \<open>
  C2. A call of \<open>log\<close> comes back only when the writes to the sinks are over. Under
  the default configuration the write to \<open>std::cerr\<close> is among the actions done when
  \<open>log\<close> returns; and called while \<open>log_mutex\<close> is held, as \<open>end_profiling\<close> calls it,
  \<open>log\<close> does not come back at all, since the write it waits for cannot begin.
\<close>

theorem log_returns_after_the_writes:
  "fst (log Info \<lparr>file_name = ''main.cpp'', line = 7, function_name = ''main''\<rparr>
         [''Start Success!''] ''2025-01-02 03:04:05'' initial_state) = Inr () \<and>
   io (snd (log Info \<lparr>file_name = ''main.cpp'', line = 7, function_name = ''main''\<rparr>
         [''Start Success!''] ''2025-01-02 03:04:05'' initial_state)) =
     [SetConsoleTextAttribute 2,
      Async (''[2025-01-02 03:04:05%] [+] Start Success!'' @ [CHR 0x0A] @
             '' -> File: main.cpp:7 (Function: main)'' @ [CHR 0x0A]) Info,
      Cerr (''[2025-01-02 03:04:05%] [+] Start Success!'' @ [CHR 0x0A] @
             '' -> File: main.cpp:7 (Function: main)'' @ [CHR 0x0A]),
      SetConsoleTextAttribute 7] \<and>
   fst (log Info \<lparr>file_name = ''main.cpp'', line = 7, function_name = ''main''\<rparr>
         [''Start Success!''] ''2025-01-02 03:04:05'' (initial_state\<lparr>log_mutex := True\<rparr>))
     = Inl Deadlock"
  by code_simp

text \<open>
  C9, as the code has it. The level of a call of \<open>log\<close> has no part in the routing: two
  calls that differ in the level only end the same way, write to the same sinks, the
  console and the files by name, in the same order, and leave the same state apart from
  \<open>io\<close>. A call made with the mutex free whose formatting does not throw returns, and
  what it does is fixed by the configuration and the text of the record: the colour that
  \<open>get_log_level_prefix\<close> sets, the launch of the lambda with the text and the level, the
  text on \<open>std::cerr\<close> exactly if \<open>console_output\<close> is set, and the text appended to the
  file \<open>log_filename\<close> exactly if \<open>file_output\<close> is set and the file opens. The level
  shows in that colour, in the level handed to the lambda, and in the prefix inside the
  text: the texts of two levels are one text around their two prefixes.
\<close>

theorem log_level_sets_prefix_and_colour_only:
  "fst (log l1 loc args now st) = fst (log l2 loc args now st) \<and>
   sinks_written (io (snd (log l1 loc args now st))) =
     sinks_written (io (snd (log l2 loc args now st))) \<and>
   (snd (log l1 loc args now st))\<lparr>io := []\<rparr> = (snd (log l2 loc args now st))\<lparr>io := []\<rparr> \<and>
   (\<forall>s. \<not> log_mutex st \<and> fst (format_message (concat args) l1 loc now st) = Inr s \<longrightarrow>
      log l1 loc args now st =
        (Inr (),
         (snd (get_log_level_prefix l1 st))
           \<lparr>io := io (snd (get_log_level_prefix l1 st)) @ [Async s l1] @
              (if console_output (log_config st)
               then [Cerr s,
                     SetConsoleTextAttribute (FOREGROUND_RED OR FOREGROUND_GREEN OR FOREGROUND_BLUE)]
               else []) @
              (if file_output (log_config st) \<and> is_open st (log_filename (log_config st))
               then [Append (log_filename (log_config st)) s] else [])\<rparr>)) \<and>
   (\<forall>s. fst (format_message (concat args) l1 loc now st) = Inr s \<longrightarrow>
      (\<exists>a b. s = a @ fst (get_log_level_prefix l1 st) @ b \<and>
         fst (format_message (concat args) l2 loc now st) =
           Inr (a @ fst (get_log_level_prefix l2 st) @ b))) \<and>
   (\<exists>c. snd (get_log_level_prefix l1 st) = st\<lparr>io := io st @ [SetConsoleTextAttribute c]\<rparr>)"
proof (intro conjI allI impI)
  have "isl (fst (format_message (concat args) l1 loc now st)) =
        isl (fst (format_message (concat args) l2 loc now st))"
    by (rule format_message_level_independent)
  then have main: "fst (log l1 loc args now st) = fst (log l2 loc args now st) \<and>
   sinks_written (io (snd (log l1 loc args now st))) =
     sinks_written (io (snd (log l2 loc args now st)))"
    by (cases "fst (format_message (concat args) l1 loc now st)";
        cases "fst (format_message (concat args) l2 loc now st)")
       (simp_all add: log_outcome log_sinks)
  from main show "fst (log l1 loc args now st) = fst (log l2 loc args now st)" by blast
  from main show "sinks_written (io (snd (log l1 loc args now st))) =
     sinks_written (io (snd (log l2 loc args now st)))" by blast
  obtain c1 where c1: "snd (log l1 loc args now st) = st\<lparr>io := io st @ c1\<rparr>"
    using log_io by blast
  obtain c2 where c2: "snd (log l2 loc args now st) = st\<lparr>io := io st @ c2\<rparr>"
    using log_io by blast
  show "(snd (log l1 loc args now st))\<lparr>io := []\<rparr> = (snd (log l2 loc args now st))\<lparr>io := []\<rparr>"
    by (simp add: c1 c2)
  show "\<exists>c. snd (get_log_level_prefix l1 st) = st\<lparr>io := io st @ [SetConsoleTextAttribute c]\<rparr>"
    by (rule get_log_level_prefix_state)
next
  fix s
  assume "\<not> log_mutex st \<and> fst (format_message (concat args) l1 loc now st) = Inr s"
  then show "log l1 loc args now st =
        (Inr (),
         (snd (get_log_level_prefix l1 st))
           \<lparr>io := io (snd (get_log_level_prefix l1 st)) @ [Async s l1] @
              (if console_output (log_config st)
               then [Cerr s,
                     SetConsoleTextAttribute (FOREGROUND_RED OR FOREGROUND_GREEN OR FOREGROUND_BLUE)]
               else []) @
              (if file_output (log_config st) \<and> is_open st (log_filename (log_config st))
               then [Append (log_filename (log_config st)) s] else [])\<rparr>)"
    by (simp add: log_Inr Let_def)
next
  fix s
  assume "fst (format_message (concat args) l1 loc now st) = Inr s"
  then show "\<exists>a b. s = a @ fst (get_log_level_prefix l1 st) @ b \<and>
         fst (format_message (concat args) l2 loc now st) =
           Inr (a @ fst (get_log_level_prefix l2 st) @ b)"
    by (rule format_message_prefix_form)
qed

text \<open>
  Error and Info where both sinks are enabled and the log file opens: the Error record
  goes to \<open>std::cerr\<close> and to error_log.txt, and is the Info record around the prefix.
\<close>

theorem log_level_sets_prefix_and_colour_only_witness:
  "\<not> log_mutex both_sinks_state \<and>
   fst (format_message (concat [''Start Success!'']) Error
          \<lparr>file_name = ''main.cpp'', line = 7, function_name = ''main''\<rparr>
          ''2025-01-02 03:04:05'' both_sinks_state) =
     Inr (''[2025-01-02 03:04:05%] [-] Start Success!'' @ [CHR 0x0A] @
          '' -> File: main.cpp:7 (Function: main)'' @ [CHR 0x0A]) \<and>
   fst (log Error \<lparr>file_name = ''main.cpp'', line = 7, function_name = ''main''\<rparr>
          [''Start Success!''] ''2025-01-02 03:04:05'' both_sinks_state) = Inr () \<and>
   io (snd (log Error \<lparr>file_name = ''main.cpp'', line = 7, function_name = ''main''\<rparr>
          [''Start Success!''] ''2025-01-02 03:04:05'' both_sinks_state)) =
     [SetConsoleTextAttribute FOREGROUND_RED,
      Async (''[2025-01-02 03:04:05%] [-] Start Success!'' @ [CHR 0x0A] @
             '' -> File: main.cpp:7 (Function: main)'' @ [CHR 0x0A]) Error,
      Cerr (''[2025-01-02 03:04:05%] [-] Start Success!'' @ [CHR 0x0A] @
             '' -> File: main.cpp:7 (Function: main)'' @ [CHR 0x0A]),
      SetConsoleTextAttribute (FOREGROUND_RED OR FOREGROUND_GREEN OR FOREGROUND_BLUE),
      Append ''error_log.txt''
        (''[2025-01-02 03:04:05%] [-] Start Success!'' @ [CHR 0x0A] @
         '' -> File: main.cpp:7 (Function: main)'' @ [CHR 0x0A])] \<and>
   sinks_written (io (snd (log Info \<lparr>file_name = ''main.cpp'', line = 7, function_name = ''main''\<rparr>
          [''Start Success!''] ''2025-01-02 03:04:05'' both_sinks_state))) =
     [Console, File ''error_log.txt''] \<and>
   (\<exists>a b. ''[2025-01-02 03:04:05%] [-] Start Success!'' @ [CHR 0x0A] @
             '' -> File: main.cpp:7 (Function: main)'' @ [CHR 0x0A] = a @ ''[-]'' @ b \<and>
      fst (format_message (concat [''Start Success!'']) Info
             \<lparr>file_name = ''main.cpp'', line = 7, function_name = ''main''\<rparr>
             ''2025-01-02 03:04:05'' both_sinks_state) = Inr (a @ ''[+]'' @ b))"
proof -
  let ?loc = "\<lparr>file_name = ''main.cpp'', line = 7, function_name = ''main''\<rparr>"
  let ?now = "''2025-01-02 03:04:05''"
  let ?s = "''[2025-01-02 03:04:05%] [-] Start Success!'' @ [CHR 0x0A] @
             '' -> File: main.cpp:7 (Function: main)'' @ [CHR 0x0A]"
  have free: "\<not> log_mutex both_sinks_state"
    by (simp add: both_sinks_state_def initial_state_def)
  have fmt: "fst (format_message (concat [''Start Success!'']) Error ?loc ?now both_sinks_state) = Inr ?s"
    by code_simp
  have red: "snd (get_log_level_prefix Error both_sinks_state) =
      both_sinks_state\<lparr>io := io both_sinks_state @ [SetConsoleTextAttribute FOREGROUND_RED]\<rparr>"
    by (simp add: get_log_level_prefix_def Info_def Warning_def Error_def)
  have pre: "fst (get_log_level_prefix Error both_sinks_state) = ''[-]''"
    "fst (get_log_level_prefix Info both_sinks_state) = ''[+]''"
    by (simp_all add: get_log_level_prefix_def Info_def Warning_def Error_def)
  have cfg: "console_output (log_config both_sinks_state)" "file_output (log_config both_sinks_state)"
    "is_open both_sinks_state ''error_log.txt''"
    "log_filename (log_config both_sinks_state) = ''error_log.txt''" "io both_sinks_state = []"
    by (simp_all add: both_sinks_state_def initial_state_def default_Config_def)
  note T = log_level_sets_prefix_and_colour_only
      [where ?l1.0 = Error and ?l2.0 = Info and loc = ?loc and args = "[''Start Success!'']"
         and now = ?now and st = both_sinks_state]
  from T have same: "sinks_written (io (snd (log Error ?loc [''Start Success!''] ?now both_sinks_state))) =
     sinks_written (io (snd (log Info ?loc [''Start Success!''] ?now both_sinks_state)))"
    by (rule conjunct1 [OF conjunct2])
  from T free fmt have "log Error ?loc [''Start Success!''] ?now both_sinks_state =
        (Inr (),
         (snd (get_log_level_prefix Error both_sinks_state))
           \<lparr>io := io (snd (get_log_level_prefix Error both_sinks_state)) @ [Async ?s Error] @
              (if console_output (log_config both_sinks_state)
               then [Cerr ?s,
                     SetConsoleTextAttribute (FOREGROUND_RED OR FOREGROUND_GREEN OR FOREGROUND_BLUE)]
               else []) @
              (if file_output (log_config both_sinks_state) \<and>
                  is_open both_sinks_state (log_filename (log_config both_sinks_state))
               then [Append (log_filename (log_config both_sinks_state)) ?s] else [])\<rparr>)"
    by blast
  then have run: "log Error ?loc [''Start Success!''] ?now both_sinks_state =
        (Inr (),
         both_sinks_state\<lparr>io := [SetConsoleTextAttribute FOREGROUND_RED, Async ?s Error, Cerr ?s,
            SetConsoleTextAttribute (FOREGROUND_RED OR FOREGROUND_GREEN OR FOREGROUND_BLUE),
            Append ''error_log.txt'' ?s]\<rparr>)"
    by (simp add: red cfg)
  from T fmt have "\<exists>a b. ?s = a @ fst (get_log_level_prefix Error both_sinks_state) @ b \<and>
         fst (format_message (concat [''Start Success!'']) Info ?loc ?now both_sinks_state) =
           Inr (a @ fst (get_log_level_prefix Info both_sinks_state) @ b)"
    by blast
  then have around: "\<exists>a b. ?s = a @ ''[-]'' @ b \<and>
         fst (format_message (concat [''Start Success!'']) Info ?loc ?now both_sinks_state) =
           Inr (a @ ''[+]'' @ b)"
    by (simp only: pre)
  have io: "io (snd (log Error ?loc [''Start Success!''] ?now both_sinks_state)) =
     [SetConsoleTextAttribute FOREGROUND_RED, Async ?s Error, Cerr ?s,
      SetConsoleTextAttribute (FOREGROUND_RED OR FOREGROUND_GREEN OR FOREGROUND_BLUE),
      Append ''error_log.txt'' ?s]"
    by (simp only: run) simp
  have out: "fst (log Error ?loc [''Start Success!''] ?now both_sinks_state) = Inr ()"
    by (simp only: run) simp
  have sinks: "sinks_written (io (snd (log Info ?loc [''Start Success!''] ?now both_sinks_state))) =
     [Console, File ''error_log.txt'']"
    using same by (simp only: io) simp
  show ?thesis
    by (intro conjI free fmt out io sinks around)
qed

text \<open>
  C9 as the specification has it fails. With \<open>file_output\<close> set and a log file that does
  not open, the call returns and the console alone is written; under the README's
  configuration \<open>console_output\<close> is set and nothing is written, by the exception of C1;
  and called with the mutex held, as \<open>end_profiling\<close> calls it, \<open>log\<close> writes nothing
  under the default configuration.
\<close>

theorem log_sinks_counterexample:
  "file_output (log_config unopened_state) \<and>
   fst (log Info \<lparr>file_name = ''main.cpp'', line = 7, function_name = ''main''\<rparr>
         [''Start Success!''] ''2025-01-02 03:04:05'' unopened_state) = Inr () \<and>
   sinks_written (io (snd (log Info \<lparr>file_name = ''main.cpp'', line = 7, function_name = ''main''\<rparr>
         [''Start Success!''] ''2025-01-02 03:04:05'' unopened_state))) = [Console] \<and>
   console_output (log_config (set_config readme_Config initial_state)) \<and>
   sinks_written (io (snd (log Info \<lparr>file_name = ''main.cpp'', line = 7, function_name = ''main''\<rparr>
         [''Start Success!''] ''2025-01-02 03:04:05'' (set_config readme_Config initial_state)))) = [] \<and>
   console_output (log_config (initial_state\<lparr>log_mutex := True\<rparr>)) \<and>
   sinks_written (io (snd (log Info \<lparr>file_name = ''main.cpp'', line = 7, function_name = ''main''\<rparr>
         [''Start Success!''] ''2025-01-02 03:04:05'' (initial_state\<lparr>log_mutex := True\<rparr>)))) = []"
  by code_simp

subsection \<open>Profiling\<close>

text \<open>
  C4. \<open>start_profiling\<close> and then \<open>end_profiling\<close> of the same tag, as in the README,
  under the default configuration: \<open>end_profiling\<close> does not come back. It holds
  \<open>log_mutex\<close> while \<open>log\<close> waits for the write to the console, which waits for the
  mutex; nothing is written, line 65 is not reached, and the tag stays registered. Under
  the README's configuration the same call ends the process, by the exception of C1
  inside a \<open>noexcept\<close> function.
\<close>

theorem end_profiling_never_returns:
  "fst (end_profiling ''Test'' 100000000 ''2025-01-02 03:04:05''
         (snd (start_profiling ''Test'' 0 initial_state))) = Inl Deadlock \<and>
   profiling_data (snd (end_profiling ''Test'' 100000000 ''2025-01-02 03:04:05''
         (snd (start_profiling ''Test'' 0 initial_state)))) ''Test'' = Some 0 \<and>
   sinks_written (io (snd (end_profiling ''Test'' 100000000 ''2025-01-02 03:04:05''
         (snd (start_profiling ''Test'' 0 initial_state))))) = [] \<and>
   fst (end_profiling ''Test'' 100000000 ''2025-01-02 03:04:05''
         (snd (start_profiling ''Test'' 0 (set_config readme_Config initial_state)))) = Inl Terminate"
  by code_simp

text \<open>
  C5, as the code has it. A callable that returns, leaving the mutex free as code outside
  the class must, is run once, before anything else: \<open>profile_function\<close> starts from
  the state the one call left, launches one Debug record with the duration, writes it
  to the enabled sinks (to the file if it opens) and returns the callable's result
  unchanged, whenever the formatting of the record does not throw. A callable that throws ends the process:
  \<open>profile_function\<close> is \<open>noexcept\<close>, the exception does not reach the caller, and the
  state is as the callable left it, with no record launched.
\<close>

theorem profile_function_returns_or_terminates:
  "(func args st = (Inr result, st1) \<and> \<not> log_mutex st1 \<and>
    fst (format_message
           (concat (execution_time_args tag (duration_cast_microseconds (end_time - start_time))))
           Debug profile_function_location now st1) = Inr s \<longrightarrow>
    profile_function tag func args start_time end_time now st =
      (Inr result,
       st1\<lparr>io := io st1 @ [SetConsoleTextAttribute FOREGROUND_BLUE, Async s Debug] @
          (if console_output (log_config st1)
           then [Cerr s, SetConsoleTextAttribute (FOREGROUND_RED OR FOREGROUND_GREEN OR FOREGROUND_BLUE)]
           else []) @
          (if file_output (log_config st1) \<and> is_open st1 (log_filename (log_config st1))
           then [Append (log_filename (log_config st1)) s] else [])\<rparr>)) \<and>
   (func args st = (Inl (Throws e), st1) \<longrightarrow>
    profile_function tag func args start_time end_time now st = (Inl Terminate, st1))"
proof (intro conjI impI)
  assume a: "func args st = (Inr result, st1) \<and> \<not> log_mutex st1 \<and>
    fst (format_message
           (concat (execution_time_args tag (duration_cast_microseconds (end_time - start_time))))
           Debug profile_function_location now st1) = Inr s"
  have blue: "snd (get_log_level_prefix Debug st1) =
      st1\<lparr>io := io st1 @ [SetConsoleTextAttribute FOREGROUND_BLUE]\<rparr>"
    by (simp add: get_log_level_prefix_def Info_def Warning_def Error_def Debug_def)
  from a show "profile_function tag func args start_time end_time now st =
      (Inr result,
       st1\<lparr>io := io st1 @ [SetConsoleTextAttribute FOREGROUND_BLUE, Async s Debug] @
          (if console_output (log_config st1)
           then [Cerr s, SetConsoleTextAttribute (FOREGROUND_RED OR FOREGROUND_GREEN OR FOREGROUND_BLUE)]
           else []) @
          (if file_output (log_config st1) \<and> is_open st1 (log_filename (log_config st1))
           then [Append (log_filename (log_config st1)) s] else [])\<rparr>)"
    by (simp add: profile_function_def log_Inr blue noexcept_def Let_def)
next
  assume "func args st = (Inl (Throws e), st1)"
  then show "profile_function tag func args start_time end_time now st = (Inl Terminate, st1)"
    by (simp add: profile_function_def noexcept_def)
qed

text \<open>
  A callable that counts its calls and returns 510 has been called once when
  \<open>profile_function\<close> returns 510; one that throws ends the process.
\<close>

theorem profile_function_returns_or_terminates_witness:
  "fst (profile_function ''Test2'' counting_callable 10 0 150000000 ''2025-01-02 03:04:05''
          counted_state) = Inr 510 \<and>
   logger_state.more (snd (profile_function ''Test2'' counting_callable 10 0 150000000
          ''2025-01-02 03:04:05'' counted_state)) = 1 \<and>
   io (snd (profile_function ''Test2'' counting_callable 10 0 150000000
          ''2025-01-02 03:04:05'' counted_state)) =
     [SetConsoleTextAttribute FOREGROUND_BLUE,
      Async (''[2025-01-02 03:04:05%] [*] Execution time for Test2: 150000 microseconds'' @
             [CHR 0x0A] @ '' -> File: logger.hpp:76 (Function: profile_function)'' @ [CHR 0x0A]) Debug,
      Cerr (''[2025-01-02 03:04:05%] [*] Execution time for Test2: 150000 microseconds'' @
             [CHR 0x0A] @ '' -> File: logger.hpp:76 (Function: profile_function)'' @ [CHR 0x0A]),
      SetConsoleTextAttribute (FOREGROUND_RED OR FOREGROUND_GREEN OR FOREGROUND_BLUE)] \<and>
   profile_function ''Test2'' throwing_callable 10 0 150000000 ''2025-01-02 03:04:05''
     counted_state = (Inl Terminate, counted_state)"
proof -
  let ?st1 = "counted_state\<lparr>logger_state.more := Suc 0\<rparr>"
  let ?s = "''[2025-01-02 03:04:05%] [*] Execution time for Test2: 150000 microseconds'' @
             [CHR 0x0A] @ '' -> File: logger.hpp:76 (Function: profile_function)'' @ [CHR 0x0A]"
  have f: "counting_callable 10 counted_state = (Inr 510, ?st1)"
    by (simp add: counting_callable_def counted_state_def)
  have free: "\<not> log_mutex ?st1"
    by (simp add: counted_state_def)
  have fmt: "fst (format_message
           (concat (execution_time_args ''Test2'' (duration_cast_microseconds (150000000 - 0))))
           Debug profile_function_location ''2025-01-02 03:04:05'' ?st1) = Inr ?s"
    by code_simp
  have t: "throwing_callable 10 counted_state = (Inl (Throws (callable_exception ''boom'')), counted_state)"
    by (simp add: throwing_callable_def)
  from profile_function_returns_or_terminates
         [where func = counting_callable and args = 10 and st = counted_state and result = 510
            and ?st1.0 = ?st1 and tag = "''Test2''" and end_time = 150000000 and start_time = 0
            and now = "''2025-01-02 03:04:05''" and s = ?s]
       f free fmt
  have 1: "profile_function ''Test2'' counting_callable 10 0 150000000 ''2025-01-02 03:04:05''
          counted_state =
      (Inr 510,
       ?st1\<lparr>io := io ?st1 @ [SetConsoleTextAttribute FOREGROUND_BLUE, Async ?s Debug] @
          (if console_output (log_config ?st1)
           then [Cerr ?s, SetConsoleTextAttribute (FOREGROUND_RED OR FOREGROUND_GREEN OR FOREGROUND_BLUE)]
           else []) @
          (if file_output (log_config ?st1) \<and> is_open ?st1 (log_filename (log_config ?st1))
           then [Append (log_filename (log_config ?st1)) ?s] else [])\<rparr>)"
    by blast
  from profile_function_returns_or_terminates
         [where func = throwing_callable and args = 10 and st = counted_state
            and ?st1.0 = counted_state and tag = "''Test2''" and end_time = 150000000
            and start_time = 0 and now = "''2025-01-02 03:04:05''"
            and e = "callable_exception ''boom''"] t
  have 2: "profile_function ''Test2'' throwing_callable 10 0 150000000 ''2025-01-02 03:04:05''
     counted_state = (Inl Terminate, counted_state)"
    by blast
  show ?thesis
    unfolding 1 2 by (simp add: counted_state_def default_Config_def)
qed

text \<open>
  C5 as the specification has it fails: the exception of the callable does not come out
  of \<open>profile_function\<close>.
\<close>

theorem profile_function_exception_counterexample:
  "fst (throwing_callable 10 counted_state) = Inl (Throws (callable_exception ''boom'')) \<and>
   fst (profile_function ''Test2'' throwing_callable 10 0 150000000 ''2025-01-02 03:04:05''
          counted_state) \<noteq> Inl (Throws (callable_exception ''boom'')) \<and>
   fst (profile_function ''Test2'' throwing_callable 10 0 150000000 ''2025-01-02 03:04:05''
          counted_state) = Inl Terminate"
  by code_simp

text \<open>
  C6. \<open>end_profiling\<close> of a tag that is not registered, called with the mutex free,
  returns and leaves the state as it was: nothing is launched or written, and the
  registry is unchanged.
\<close>

theorem end_profiling_absent_is_noop:
  "\<not> log_mutex st \<Longrightarrow> profiling_data st tag = None \<Longrightarrow>
   end_profiling tag end_time now st = (Inr (), st)"
  by (simp add: end_profiling_def lock_guard_def noexcept_def)

text \<open>No tag is registered in the initial state.\<close>

theorem end_profiling_absent_is_noop_witness:
  "\<not> log_mutex initial_state \<and> profiling_data initial_state ''missing'' = None \<and>
   end_profiling ''missing'' 5000 ''2025-01-02 03:04:05'' initial_state = (Inr (), initial_state)"
  using end_profiling_absent_is_noop [of initial_state "''missing''" 5000 "''2025-01-02 03:04:05''"]
  by (simp add: initial_state_def)

text \<open>
  C7. The registry is a map, with one reading per tag at most, and \<open>start_profiling\<close>,
  called with the mutex free, stores the new reading under the tag: the tag then maps to
  that reading, every other tag is as before, and where the tag was registered already
  the set of registered tags is the same, so that the later of two starts wins.
\<close>

theorem start_profiling_overwrites:
  "\<not> log_mutex st \<Longrightarrow>
   start_profiling tag t st = (Inr (), st\<lparr>profiling_data := (profiling_data st)(tag \<mapsto> t)\<rparr>) \<and>
   profiling_data (snd (start_profiling tag t st)) tag = Some t \<and>
   (\<forall>tag'. tag' \<noteq> tag \<longrightarrow>
      profiling_data (snd (start_profiling tag t st)) tag' = profiling_data st tag') \<and>
   (tag \<in> dom (profiling_data st) \<longrightarrow>
      dom (profiling_data (snd (start_profiling tag t st))) = dom (profiling_data st)) \<and>
   snd (start_profiling tag t (snd (start_profiling tag t0 st))) = snd (start_profiling tag t st)"
  by (auto simp add: start_profiling_def lock_guard_def noexcept_def)

text \<open>Two starts of T, at 1000 and at 2000.\<close>

theorem start_profiling_overwrites_witness:
  "\<not> log_mutex (snd (start_profiling ''T'' 1000 initial_state)) \<and>
   ''T'' \<in> dom (profiling_data (snd (start_profiling ''T'' 1000 initial_state))) \<and>
   profiling_data (snd (start_profiling ''T'' 2000 (snd (start_profiling ''T'' 1000 initial_state)))) ''T'' = Some 2000 \<and>
   dom (profiling_data (snd (start_profiling ''T'' 2000 (snd (start_profiling ''T'' 1000 initial_state))))) =
     dom (profiling_data (snd (start_profiling ''T'' 1000 initial_state)))"
proof -
  let ?S = "snd (start_profiling ''T'' 1000 initial_state)"
  have free: "\<not> log_mutex ?S"
    by (simp add: start_profiling_def lock_guard_def noexcept_def initial_state_def)
  have reg: "''T'' \<in> dom (profiling_data ?S)"
    by (simp add: start_profiling_def lock_guard_def noexcept_def initial_state_def)
  from start_profiling_overwrites [OF free, of "''T''" 2000] free reg
  show ?thesis by blast
qed

text \<open>
  C10. Every record that \<open>end_profiling\<close> or \<open>profile_function\<close> launches is a Debug
  record, and its text is what the formatter makes of the place of the call of \<open>log\<close>
  inside the function (line 64 or line 76 of the header): the caller's own place is no
  input of either function.
\<close>

theorem profiling_records_name_the_header:
  "(\<forall>s l. Async s l \<in> set (drop (length (io st)) (io (snd (end_profiling tag end_time now st)))) \<longrightarrow>
      l = Debug \<and>
      (\<exists>start. profiling_data st tag = Some start \<and>
         fst (format_message
                (concat (execution_time_args tag (duration_cast_microseconds (end_time - start))))
                Debug end_profiling_location now st) = Inr s)) \<and>
   (\<forall>r st1 s l. func args st = (r, st1) \<longrightarrow>
      Async s l \<in> set (drop (length (io st1))
        (io (snd (profile_function tag func args start_time end_time now st)))) \<longrightarrow>
      l = Debug \<and>
      fst (format_message
             (concat (execution_time_args tag (duration_cast_microseconds (end_time - start_time))))
             Debug profile_function_location now st1) = Inr s)"
proof (intro conjI allI impI)
  fix s l
  assume a: "Async s l \<in> set (drop (length (io st)) (io (snd (end_profiling tag end_time now st))))"
  obtain c where c: "io (snd (end_profiling tag end_time now st)) = io st @ c"
    "\<forall>s l. Async s l \<in> set c \<longrightarrow> l = Debug \<and>
          (\<exists>start. profiling_data st tag = Some start \<and>
             fst (format_message
                    (concat (execution_time_args tag (duration_cast_microseconds (end_time - start))))
                    Debug end_profiling_location now st) = Inr s)"
    using end_profiling_io by blast
  from a c(1) have "Async s l \<in> set c" by simp
  with c(2) show "l = Debug" and "\<exists>start. profiling_data st tag = Some start \<and>
         fst (format_message
                (concat (execution_time_args tag (duration_cast_microseconds (end_time - start))))
                Debug end_profiling_location now st) = Inr s" by blast+
next
  fix r st1 s l
  assume f: "func args st = (r, st1)"
    and a: "Async s l \<in> set (drop (length (io st1))
        (io (snd (profile_function tag func args start_time end_time now st))))"
  obtain c where c: "io (snd (profile_function tag func args start_time end_time now st)) = io st1 @ c"
    "\<forall>s l. Async s l \<in> set c \<longrightarrow> l = Debug \<and>
          fst (format_message
                 (concat (execution_time_args tag (duration_cast_microseconds (end_time - start_time))))
                 Debug profile_function_location now st1) = Inr s"
    using profile_function_io [of func args st r st1 tag start_time end_time now] f by blast
  from a c(1) have "Async s l \<in> set c" by simp
  with c(2) show "l = Debug" and "fst (format_message
             (concat (execution_time_args tag (duration_cast_microseconds (end_time - start_time))))
             Debug profile_function_location now st1) = Inr s" by blast+
qed

text \<open>The records of the README's two profiling examples name logger.hpp, lines 64 and 76.\<close>

theorem profiling_records_name_the_header_witness:
  "Async (''[2025-01-02 03:04:05%] [*] Execution time for Test: 100000 microseconds'' @
          [CHR 0x0A] @ '' -> File: logger.hpp:64 (Function: end_profiling)'' @ [CHR 0x0A]) Debug
     \<in> set (drop (length (io (snd (start_profiling ''Test'' 0 initial_state))))
          (io (snd (end_profiling ''Test'' 100000000 ''2025-01-02 03:04:05''
             (snd (start_profiling ''Test'' 0 initial_state)))))) \<and>
   Async (''[2025-01-02 03:04:05%] [*] Execution time for Test2: 150000 microseconds'' @
          [CHR 0x0A] @ '' -> File: logger.hpp:76 (Function: profile_function)'' @ [CHR 0x0A]) Debug
     \<in> set (drop (length (io initial_state))
          (io (snd (profile_function ''Test2'' readme_callable () 0 150000000
             ''2025-01-02 03:04:05'' initial_state)))) \<and>
   fst (format_message
          (concat (execution_time_args ''Test'' (duration_cast_microseconds (100000000 - 0))))
          Debug end_profiling_location ''2025-01-02 03:04:05''
          (snd (start_profiling ''Test'' 0 initial_state))) =
     Inr (''[2025-01-02 03:04:05%] [*] Execution time for Test: 100000 microseconds'' @
          [CHR 0x0A] @ '' -> File: logger.hpp:64 (Function: end_profiling)'' @ [CHR 0x0A]) \<and>
   fst (format_message
          (concat (execution_time_args ''Test2'' (duration_cast_microseconds (150000000 - 0))))
          Debug profile_function_location ''2025-01-02 03:04:05'' initial_state) =
     Inr (''[2025-01-02 03:04:05%] [*] Execution time for Test2: 150000 microseconds'' @
          [CHR 0x0A] @ '' -> File: logger.hpp:76 (Function: profile_function)'' @ [CHR 0x0A])"
proof -
  let ?S = "snd (start_profiling ''Test'' 0 initial_state)"
  let ?r64 = "''[2025-01-02 03:04:05%] [*] Execution time for Test: 100000 microseconds'' @
          [CHR 0x0A] @ '' -> File: logger.hpp:64 (Function: end_profiling)'' @ [CHR 0x0A]"
  let ?r76 = "''[2025-01-02 03:04:05%] [*] Execution time for Test2: 150000 microseconds'' @
          [CHR 0x0A] @ '' -> File: logger.hpp:76 (Function: profile_function)'' @ [CHR 0x0A]"
  have m64: "Async ?r64 Debug \<in> set (drop (length (io ?S))
          (io (snd (end_profiling ''Test'' 100000000 ''2025-01-02 03:04:05'' ?S))))"
    by code_simp
  have m76: "Async ?r76 Debug \<in> set (drop (length (io initial_state))
          (io (snd (profile_function ''Test2'' readme_callable () 0 150000000
             ''2025-01-02 03:04:05'' initial_state))))"
    by code_simp
  have f: "readme_callable () initial_state = (Inr 510, initial_state)"
    by (simp add: readme_callable_def)
  have reg: "profiling_data ?S ''Test'' = Some 0"
    by (simp add: start_profiling_def lock_guard_def noexcept_def initial_state_def)
  note T1 = profiling_records_name_the_header
         [where st = ?S and tag = "''Test''" and end_time = 100000000
            and now = "''2025-01-02 03:04:05''", THEN conjunct1, rule_format, OF m64]
  note T2 = profiling_records_name_the_header
         [where st = initial_state and tag = "''Test2''" and end_time = 150000000
            and now = "''2025-01-02 03:04:05''" and func = readme_callable and args = "()"
            and start_time = 0, THEN conjunct2, rule_format, OF f m76]
  from T1 obtain start where start: "profiling_data ?S ''Test'' = Some start"
    "fst (format_message
          (concat (execution_time_args ''Test'' (duration_cast_microseconds (100000000 - start))))
          Debug end_profiling_location ''2025-01-02 03:04:05'' ?S) = Inr ?r64"
    by blast
  from start(1) reg have "start = 0" by simp
  with start(2) have r64: "fst (format_message
          (concat (execution_time_args ''Test'' (duration_cast_microseconds (100000000 - 0))))
          Debug end_profiling_location ''2025-01-02 03:04:05'' ?S) = Inr ?r64"
    by simp
  show ?thesis
    by (intro conjI m64 m76 r64 T2 [THEN conjunct2])
qed

end
